theory Spec2Isabelle
  imports Main "HOL-Library.AList"
begin

section \<open>JavaScript values\<close>

text \<open>
  The orchestrator of \<^verbatim>\<open>bin/yoke.js\<close> handles untyped JavaScript values: what
  \<^verbatim>\<open>JSON.parse\<close> returns for the two files, the failure values handed to callbacks and
  the second argument of a command's completion callback. They are modelled by one
  datatype. An object is the list of its own enumerable properties in insertion order,
  an array is its elements together with any named properties assigned to it later, a
  function is an identifier (the model records calls, it does not run bodies), and an
  \<^verbatim>\<open>Error\<close> instance carries its \<^verbatim>\<open>stack\<close> (if defined) and the text of
  \<^verbatim>\<open>toString()\<close>. Numbers are integers here: the program never computes with a
  number, it only tests truthiness, and \<^verbatim>\<open>NaN\<close> is not represented.
\<close>

datatype jsval =
    VUndefined
  | VNull
  | VBool bool
  | VNum int
  | VStr string
  | VArr "jsval list" "(string \<times> jsval) list"
  | VObj "(string \<times> jsval) list"
  | VFun nat
  | VError "string option" string

type_synonym obj = "(string \<times> jsval) list"

text \<open>JavaScript truthiness, as tested by \<^verbatim>\<open>if (x)\<close>, \<^verbatim>\<open>!x\<close>, \<^verbatim>\<open>&&\<close> and \<^verbatim>\<open>||\<close>.\<close>

fun truthy :: "jsval \<Rightarrow> bool" where
  "truthy VUndefined = False"
| "truthy VNull = False"
| "truthy (VBool b) = b"
| "truthy (VNum n) = (n \<noteq> 0)"
| "truthy (VStr s) = (s \<noteq> [])"
| "truthy (VArr xs ps) = True"
| "truthy (VObj ps) = True"
| "truthy (VFun f) = True"
| "truthy (VError st m) = True"

text \<open>Reading a property of \<^verbatim>\<open>null\<close> or \<^verbatim>\<open>undefined\<close> throws a \<^verbatim>\<open>TypeError\<close>.\<close>

fun nullish :: "jsval \<Rightarrow> bool" where
  "nullish VUndefined = True"
| "nullish VNull = True"
| "nullish v = False"

text \<open>The decimal name of an array index, as a property name.\<close>

function index_name :: "nat \<Rightarrow> string" where
  "index_name n =
     (if n < 10 then [char_of (48 + n)]
      else index_name (n div 10) @ [char_of (48 + n mod 10)])"
  by pat_completeness auto
termination
  by (relation "measure id") auto

declare index_name.simps [simp del]

text \<open>
  The own enumerable properties of a value. A primitive, a function and an
  \<^verbatim>\<open>Error\<close> have none that the program reads or copies (lodash 2.x \<^verbatim>\<open>assign\<close> skips
  a source that is not an object).
\<close>

fun own :: "jsval \<Rightarrow> obj" where
  "own (VObj ps) = ps"
| "own (VArr xs ps) = zip (map index_name [0..<length xs]) xs @ ps"
| "own v = []"

definition keys :: "jsval \<Rightarrow> string list" where
  "keys v = map fst (own v)"

definition field :: "obj \<Rightarrow> string \<Rightarrow> jsval" where
  "field ps k = (case map_of ps k of Some v \<Rightarrow> v | None \<Rightarrow> VUndefined)"

text \<open>
  \<^verbatim>\<open>v.k\<close> for a value that is neither \<^verbatim>\<open>null\<close> nor \<^verbatim>\<open>undefined\<close> and a name
  \<^verbatim>\<open>k\<close> that no prototype defines; the program reads \<^verbatim>\<open>userId\<close>, \<^verbatim>\<open>secretKey\<close>,
  \<^verbatim>\<open>_aerobatic\<close>, \<^verbatim>\<open>appId\<close>, \<^verbatim>\<open>version\<close> and \<^verbatim>\<open>scripts\<close>.
\<close>

definition get :: "jsval \<Rightarrow> string \<Rightarrow> jsval" where
  "get v k = field (own v) k"

text \<open>
  \<^verbatim>\<open>v.k = x\<close> for a name \<^verbatim>\<open>k\<close> that is not an array index. The script is not in
  strict mode, so that an assignment to a property of a primitive is silently dropped.
  \<^verbatim>\<open>JSON.parse\<close> returns no function and no \<^verbatim>\<open>Error\<close>.
\<close>

fun put :: "jsval \<Rightarrow> string \<Rightarrow> jsval \<Rightarrow> jsval" where
  "put (VObj ps) k x = VObj (AList.update k x ps)"
| "put (VArr xs ps) k x = VArr xs (AList.update k x ps)"
| "put v k x = v"

subsection \<open>The lodash functions the program calls\<close>

fun isEmpty :: "jsval \<Rightarrow> bool" where
  "isEmpty (VStr s) = (s = [])"
| "isEmpty (VArr xs ps) = (xs = [])"
| "isEmpty (VObj ps) = (ps = [])"
| "isEmpty v = True"

fun isString :: "jsval \<Rightarrow> bool" where
  "isString (VStr s) = True"
| "isString v = False"

fun isFunction :: "jsval \<Rightarrow> bool" where
  "isFunction (VFun f) = True"
| "isFunction v = False"

text \<open>The values that hold named properties: objects and arrays.\<close>

fun isObject :: "jsval \<Rightarrow> bool" where
  "isObject (VObj ps) = True"
| "isObject (VArr xs ps) = True"
| "isObject v = False"

text \<open>\<^verbatim>\<open>_.extend(dest, src)\<close> on an object: \<^verbatim>\<open>dest[k] = src[k]\<close> for each own key of \<^verbatim>\<open>src\<close>.\<close>

definition extend_obj :: "obj \<Rightarrow> jsval \<Rightarrow> obj" where
  "extend_obj dest src = fold (\<lambda>k d. AList.update k (get src k) d) (keys src) dest"

text \<open>\<^verbatim>\<open>_.defaults(object, source)\<close>: fills in the properties that are \<^verbatim>\<open>undefined\<close>.\<close>

definition defaults :: "obj \<Rightarrow> obj \<Rightarrow> obj" where
  "defaults object source =
     fold (\<lambda>k d. if field d k = VUndefined then AList.update k (field source k) d else d)
       (map fst source) object"

section \<open>The two resolvers\<close>

text \<open>
  What the file system and \<^verbatim>\<open>JSON.parse\<close> give for a file: it does not exist, it
  exists and cannot be read (the \<^verbatim>\<open>Error\<close> of the read, by its stack and text), it
  is read and is not JSON, or it is read and parses to a value.
\<close>

datatype fsfile = NoFile | Unreadable "string option" string | Unparsable | Json jsval

text \<open>
  A resolver ends by calling its callback with an error and a value
  (\<^verbatim>\<open>callback(msg)\<close> leaves the value \<^verbatim>\<open>undefined\<close>), or by throwing a
  \<^verbatim>\<open>TypeError\<close> out of its file-system callback, which nothing catches.
\<close>

datatype outcome = Callback jsval jsval | Throws

definition no_dotfile_msg :: string where
  \<open>no_dotfile_msg = ''No .aerobatic file exists. First run 'yoke login'' @ [CHR 0x27]\<close>

definition parse_dotfile_msg :: string where
  \<open>parse_dotfile_msg = ''Could not parse .aerobatic file JSON. Try re-running 'yoke login'' @ [CHR 0x27]\<close>

definition missing_info_msg :: string where
  \<open>missing_info_msg = ''Missing information in .aerobatic file. Try re-running 'yoke login'' @ [CHR 0x27]\<close>

definition missing_section_msg :: string where
  \<open>missing_section_msg =
     ''Missing _aerobatic section in package.json file. Try re-running the command 'yoke app:bind'.''\<close>

definition missing_appId_msg :: string where
  \<open>missing_appId_msg =
     ''Missing appId in _aerobatic section of package.json. Try re-running the command 'yoke bind-app'.''\<close>

text \<open>
  \<^verbatim>\<open>loadCredentials\<close> (lines 155-178). The \<^verbatim>\<open>try\<close> block holds the read and the parse
  only; \<^verbatim>\<open>credentials.userId\<close> is evaluated after it.
\<close>

definition loadCredentials :: "fsfile \<Rightarrow> outcome" where
  "loadCredentials aerobaticDotFile =
     (case aerobaticDotFile of
        NoFile \<Rightarrow> Callback (VStr no_dotfile_msg) VUndefined
      | Unreadable st m \<Rightarrow> Callback (VStr parse_dotfile_msg) VUndefined
      | Unparsable \<Rightarrow> Callback (VStr parse_dotfile_msg) VUndefined
      | Json credentials \<Rightarrow>
          if nullish credentials then Throws
          else if isEmpty (get credentials ''userId'') \<or> isEmpty (get credentials ''secretKey'')
          then Callback (VStr missing_info_msg) VUndefined
          else Callback VNull credentials)"

text \<open>
  \<^verbatim>\<open>loadAerobaticNpmConfig\<close> (lines 180-219), given the \<^verbatim>\<open>program\<close> object it reads
  \<^verbatim>\<open>appId\<close> from and the path of the manifest. The \<^verbatim>\<open>_.extend\<close> of line 211 assigns
  the two named properties.
\<close>

definition loadAerobaticNpmConfig :: "obj \<Rightarrow> string \<Rightarrow> fsfile \<Rightarrow> outcome" where
  \<open>loadAerobaticNpmConfig program packageJsonPath packageJson =
     (case packageJson of
        NoFile \<Rightarrow>
          Callback (VStr (''File '' @ packageJsonPath
            @ '' does not exist. Run 'npm init' to create it.'')) VUndefined
      | Unreadable st m \<Rightarrow> Callback (VError st m) VUndefined
      | Unparsable \<Rightarrow>
          Callback (VStr (''File '' @ packageJsonPath @ '' is not valid JSON'')) VUndefined
      | Json json \<Rightarrow>
          if nullish json then Throws
          else if \<not> truthy (get json ''_aerobatic'')
          then Callback (VStr missing_section_msg) VUndefined
          else
            let aerobaticConfig = get json ''_aerobatic'' in
            if \<not> truthy (field program ''appId'') \<and> \<not> truthy (get aerobaticConfig ''appId'')
            then Callback (VStr missing_appId_msg) VUndefined
            else
              let aerobaticConfig =
                    (if truthy (field program ''appId'')
                     then put aerobaticConfig ''appId'' (field program ''appId'')
                     else aerobaticConfig);
                  aerobaticConfig = put aerobaticConfig ''appVersion'' (get json ''version'');
                  aerobaticConfig = put aerobaticConfig ''npmScripts''
                    (if truthy (get json ''scripts'') then get json ''scripts'' else VObj [])
              in Callback VNull aerobaticConfig)\<close>

text \<open>
  The resolver as the specification words the rule for \<^verbatim>\<open>appId\<close>: the command-line
  value is laid over the sub-section first, and the check for a missing \<^verbatim>\<open>appId\<close> then
  looks at the sub-section alone. It is compared with \<^verbatim>\<open>loadAerobaticNpmConfig\<close> below.
\<close>

definition loadAerobaticNpmConfig_overlay_first :: "obj \<Rightarrow> string \<Rightarrow> fsfile \<Rightarrow> outcome" where
  \<open>loadAerobaticNpmConfig_overlay_first program packageJsonPath packageJson =
     (case packageJson of
        NoFile \<Rightarrow>
          Callback (VStr (''File '' @ packageJsonPath
            @ '' does not exist. Run 'npm init' to create it.'')) VUndefined
      | Unreadable st m \<Rightarrow> Callback (VError st m) VUndefined
      | Unparsable \<Rightarrow>
          Callback (VStr (''File '' @ packageJsonPath @ '' is not valid JSON'')) VUndefined
      | Json json \<Rightarrow>
          if nullish json then Throws
          else if \<not> truthy (get json ''_aerobatic'')
          then Callback (VStr missing_section_msg) VUndefined
          else
            let aerobaticConfig = get json ''_aerobatic'';
                aerobaticConfig =
                    (if truthy (field program ''appId'')
                     then put aerobaticConfig ''appId'' (field program ''appId'')
                     else aerobaticConfig)
            in
            if \<not> truthy (get aerobaticConfig ''appId'')
            then Callback (VStr missing_appId_msg) VUndefined
            else
              let aerobaticConfig = put aerobaticConfig ''appVersion'' (get json ''version'');
                  aerobaticConfig = put aerobaticConfig ''npmScripts''
                    (if truthy (get json ''scripts'') then get json ''scripts'' else VObj [])
              in Callback VNull aerobaticConfig)\<close>

section \<open>The process\<close>

text \<open>
  The state of the process as the script changes it: the \<^verbatim>\<open>program\<close> object (the
  Context handed to a command), \<^verbatim>\<open>process.env\<close>, the lines handed to
  \<^verbatim>\<open>log.error\<close> and \<^verbatim>\<open>log.info\<close>, the commands dispatched with the Context they got,
  the listeners of the \<^verbatim>\<open>exit\<close> event, the values called by such a listener, and
  whether the process runs, has exited with a status code, has died of an uncaught
  exception or was ended by a signal. \<^verbatim>\<open>log.debug\<close> lines are diagnostics and are left
  out.
\<close>

datatype entry = Error string | Info string

datatype listener = LogExiting | OnKill jsval

datatype status = Running | Exited nat | Crashed | Killed

record proc =
  program :: obj
  env :: "(string \<times> string) list"
  logged :: "entry list"
  invoked :: "(string \<times> obj) list"
  listeners :: "listener list"
  called :: "jsval list"
  status :: status

text \<open>
  A command implementation (\<^verbatim>\<open>../commands/<name>\<close>) is outside this file: it
  either never calls the completion callback or calls it once with an error and a second
  argument.
\<close>

datatype completion = NoCallback | Completes jsval jsval

text \<open>
  What one invocation depends on: the command word and the options \<^verbatim>\<open>commander\<close>
  stored on \<^verbatim>\<open>program\<close>, the two files, which of the two tasks calls back first when
  both run, the command implementations, and whether the implementation calls the
  completion callback before it returns or later, from the event loop.
\<close>

record world =
  argv_command :: "string option"
  flags :: obj
  dotfile :: fsfile
  packageJsonPath :: string
  manifest :: fsfile
  config_first :: bool
  commands :: "string \<Rightarrow> obj \<Rightarrow> completion"
  sync_completion :: bool

definition log_error :: "string \<Rightarrow> proc \<Rightarrow> proc" where
  "log_error m st = st\<lparr>logged := logged st @ [Error m]\<rparr>"

fun run_listener :: "listener \<Rightarrow> proc \<Rightarrow> proc" where
  "run_listener LogExiting st = st\<lparr>logged := logged st @ [Info ''Exiting'']\<rparr>"
| "run_listener (OnKill onKill) st = st\<lparr>called := called st @ [onKill]\<rparr>"

text \<open>
  The \<^verbatim>\<open>exit\<close> event: emitted once, it runs the listeners in the order of their
  registration and the process ends with the given code.
\<close>

definition emit_exit :: "nat \<Rightarrow> proc \<Rightarrow> proc" where
  "emit_exit code st =
     (if status st = Running then (fold run_listener (listeners st) st)\<lparr>status := Exited code\<rparr>
      else st)"

text \<open>
  \<^verbatim>\<open>process.exit()\<close> without an argument: the default code, 0 (nothing in the script
  sets \<^verbatim>\<open>process.exitCode\<close>). It does not return to its caller.
\<close>

definition process_exit :: "proc \<Rightarrow> proc" where
  "process_exit st = emit_exit 0 st"

text \<open>
  An exception that nothing catches: Node emits \<^verbatim>\<open>exit\<close>, so that the listeners run,
  and the process dies.
\<close>

definition crash :: "proc \<Rightarrow> proc" where
  "crash st = (fold run_listener (listeners st) st)\<lparr>status := Crashed\<rparr>"

text \<open>
  \<^verbatim>\<open>SIGINT\<close> reaching the process. The script registers listeners for the \<^verbatim>\<open>exit\<close>
  event only (lines 80 and 138) and none for the signal, so that the default action of
  Node ends the process at once, without emitting \<^verbatim>\<open>exit\<close>.
\<close>

definition sigint :: "proc \<Rightarrow> proc" where
  "sigint st = (if status st = Running then st\<lparr>status := Killed\<rparr> else st)"

text \<open>
  Lines 80-83, reached when \<^verbatim>\<open>program.parse\<close> has returned: the listener that logs
  \<^verbatim>\<open>Exiting\<close> is registered. A process that has exited inside \<^verbatim>\<open>program.parse\<close>
  does not reach the line.
\<close>

definition register_exiting :: "proc \<Rightarrow> proc" where
  "register_exiting st =
     (if status st = Running then st\<lparr>listeners := listeners st @ [LogExiting]\<rparr> else st)"

text \<open>The error branch of lines 107-110 and 124-127.\<close>

fun report :: "jsval \<Rightarrow> proc \<Rightarrow> proc" where
  "report (VError stack msg) st =
     log_error (case stack of None \<Rightarrow> msg | Some s \<Rightarrow> if s \<noteq> [] then s else msg) st"
| "report (VStr s) st = log_error s st"
| "report err st = st"

text \<open>\<^verbatim>\<open>setProgramDefaults\<close> (lines 147-153).\<close>

definition setProgramDefaults :: "proc \<Rightarrow> proc" where
  "setProgramDefaults st =
     (let st1 = (if truthy (field (program st) ''debug'')
                 then st\<lparr>env := AList.update ''YOKE_DEBUG'' ''1'' (env st)\<rparr> else st)
      in if truthy (field (program st1) ''dev'')
         then st1\<lparr>env := AList.update ''AEROBATIC_ENV'' ''dev'' (env st1)\<rparr> else st1)"

text \<open>
  The completion callback handed to the command (lines 122-142). The listener it
  registers calls \<^verbatim>\<open>onKill\<close>.
\<close>

definition command_done :: "jsval \<Rightarrow> jsval \<Rightarrow> proc \<Rightarrow> proc" where
  "command_done err onKill st =
     (if truthy err then process_exit (report err st)
      else if \<not> isFunction onKill then process_exit st
      else st\<lparr>listeners := listeners st @ [OnKill onKill]\<rparr>)"

text \<open>
  The loop of lines 116-118: \<^verbatim>\<open>_.each\<close> visits the results in the order of their
  keys' insertion, the key is not used, and each value is spread over \<^verbatim>\<open>program\<close>.
\<close>

definition merge_results :: "obj \<Rightarrow> obj \<Rightarrow> obj" where
  "merge_results results prog = fold (\<lambda>(key, value) p. extend_obj p value) results prog"

text \<open>
  Line 122: the implementation of the command is called with \<^verbatim>\<open>program\<close> and the
  completion callback.
\<close>

definition dispatch :: "string \<Rightarrow> world \<Rightarrow> proc \<Rightarrow> proc" where
  "dispatch name w st =
     (let st' = st\<lparr>invoked := invoked st @ [(name, program st)]\<rparr>
      in case commands w name (program st) of
           NoCallback \<Rightarrow> st'
         | Completes e onKill \<Rightarrow> command_done e onKill st')"

text \<open>The callback handed to \<^verbatim>\<open>async.parallel\<close> (lines 105-143).\<close>

definition init_done :: "string \<Rightarrow> world \<Rightarrow> jsval \<Rightarrow> obj \<Rightarrow> proc \<Rightarrow> proc" where
  "init_done name w err results st =
     (if truthy err then process_exit (report err st)
      else dispatch name w
             (setProgramDefaults (st\<lparr>program := merge_results results (program st)\<rparr>)))"

subsection \<open>The join of the initialisation tasks\<close>

text \<open>
  \<^verbatim>\<open>async.parallel\<close> on an object of tasks, given the tasks' outcomes in the order in
  which they arrive: each callback stores the task's value under the task's name; the
  first error ends the join with that error, and later callbacks are ignored; when every
  task has called back without an error, or there is no task, the join ends without an
  error. An exception thrown by a task ends the process.
\<close>

datatype joined = Final jsval obj | Uncaught

fun parallel :: "(string \<times> outcome) list \<Rightarrow> obj \<Rightarrow> joined" where
  "parallel [] results = Final VUndefined results"
| "parallel ((k, Throws) # rest) results = Uncaught"
| "parallel ((k, Callback err v) # rest) results =
     (if truthy err then Final err (AList.update k v results)
      else parallel rest (AList.update k v results))"

text \<open>The tasks declared in lines 93-103, in the order of their declaration.\<close>

definition initTasks :: "obj \<Rightarrow> string list" where
  "initTasks prog =
     (if field prog ''requireCredentials'' = VBool True
         \<and> \<not> (truthy (field prog ''userId'') \<and> truthy (field prog ''secretKey''))
      then [''credentials''] else [])
     @ (if truthy (field prog ''loadNpmConfig'') then [''config''] else [])"

definition run_task :: "world \<Rightarrow> obj \<Rightarrow> string \<Rightarrow> outcome" where
  "run_task w prog k =
     (if k = ''credentials'' then loadCredentials (dotfile w)
      else loadAerobaticNpmConfig prog (packageJsonPath w) (manifest w))"

definition arrival :: "world \<Rightarrow> string list \<Rightarrow> string list" where
  "arrival w tasks = (if config_first w then rev tasks else tasks)"

subsection \<open>The action of a command\<close>

definition option_defaults :: obj where
  "option_defaults = [(''requireCredentials'', VBool True), (''loadNpmConfig'', VBool True)]"

text \<open>Line 88: the options of the command, completed by the defaults, are copied to \<^verbatim>\<open>program\<close>.\<close>

definition apply_options :: "obj \<Rightarrow> obj \<Rightarrow> obj" where
  "apply_options options prog = extend_obj prog (VObj (defaults options option_defaults))"

text \<open>The declared tasks with their outcomes, in the order in which they call back.\<close>

definition task_outcomes :: "world \<Rightarrow> obj \<Rightarrow> (string \<times> outcome) list" where
  "task_outcomes w prog = map (\<lambda>k. (k, run_task w prog k)) (arrival w (initTasks prog))"

text \<open>\<^verbatim>\<open>commandAction(name, options)\<close> (lines 85-145), run in a process state.\<close>

definition commandAction :: "string \<Rightarrow> obj \<Rightarrow> world \<Rightarrow> proc \<Rightarrow> proc" where
  "commandAction name options w st =
     (let st1 = st\<lparr>program := apply_options options (program st)\<rparr>
      in case parallel (task_outcomes w (program st1)) [] of
           Uncaught \<Rightarrow> crash st1
         | Final err results \<Rightarrow> init_done name w err results st1)"

text \<open>
  The commands declared in lines 31-69: the command word, the name of its
  implementation and the options given to \<^verbatim>\<open>commandAction\<close>. Any other word falls to
  the \<^verbatim>\<open>*\<close> command.
\<close>

definition command_table :: "string \<Rightarrow> (string \<times> obj) option" where
  "command_table c =
     (if c = ''login''
        then Some (''login'', [(''requireCredentials'', VBool False), (''loadNpmConfig'', VBool False)])
      else if c = ''create-app'' then Some (''appCreate'', [(''loadNpmConfig'', VBool False)])
      else if c = ''bind-app'' then Some (''appBind'', [(''loadNpmConfig'', VBool False)])
      else if c = ''serve'' then Some (''serve'', [])
      else if c = ''sim'' then Some (''serve'', [(''simulator'', VBool True)])
      else if c = ''deploy'' then Some (''deploy'', [])
      else None)"

definition initial :: "world \<Rightarrow> proc" where
  "initial w = \<lparr>program = flags w, env = [], logged = [], invoked = [], listeners = [],
     called = [], status = Running\<rparr>"

text \<open>
  The script. \<^verbatim>\<open>program.parse\<close> (line 78) runs the action of the command word, and
  line 80 follows. The action of \<^verbatim>\<open>*\<close> (lines 71-76) exits inside \<^verbatim>\<open>program.parse\<close>.
  The action of a command ends inside \<^verbatim>\<open>program.parse\<close> when no task is declared
  (\<^verbatim>\<open>async.parallel\<close> then calls back at once) and the command calls its completion
  callback before it returns: line 80 is reached afterwards, if the process still runs.
  Otherwise the callbacks of the file system, or of the command, run from the event
  loop, after line 80; what the action does before them (line 88, the start of the
  tasks, the call of the command) registers no listener and cannot exit, so that it is
  applied to the state in which line 80 has run.
\<close>

definition main :: "world \<Rightarrow> proc" where
  \<open>main w =
     (case argv_command w of
        None \<Rightarrow> register_exiting (initial w)
      | Some c \<Rightarrow>
          (case command_table c of
             None \<Rightarrow>
               process_exit (log_error ''Not a valid command. Type 'yoke -h' for help.'' (initial w))
           | Some (name, options) \<Rightarrow>
               if initTasks (apply_options options (flags w)) = [] \<and> sync_completion w
               then register_exiting (commandAction name options w (initial w))
               else commandAction name options w (register_exiting (initial w))))\<close>

text \<open>The values that the listeners of a list call, in order.\<close>

fun kills :: "listener list \<Rightarrow> jsval list" where
  "kills [] = []"
| "kills (LogExiting # ls) = kills ls"
| "kills (OnKill v # ls) = v # kills ls"

text \<open>The lines that the listeners of a list log, in order.\<close>

fun exitings :: "listener list \<Rightarrow> entry list" where
  "exitings [] = []"
| "exitings (LogExiting # ls) = Info ''Exiting'' # exitings ls"
| "exitings (OnKill v # ls) = exitings ls"

text \<open>The error lines among the lines logged.\<close>

fun errors :: "entry list \<Rightarrow> string list" where
  "errors [] = []"
| "errors (Error m # es) = m # errors es"
| "errors (Info m # es) = errors es"

text \<open>A task succeeds when it calls back with an error that is not truthy.\<close>

fun succeeded :: "outcome \<Rightarrow> bool" where
  "succeeded (Callback err v) = (\<not> truthy err)"
| "succeeded Throws = False"

text \<open>The value a task stored in the results of the join.\<close>

fun value_of :: "outcome \<Rightarrow> jsval" where
  "value_of (Callback err v) = v"
| "value_of Throws = VUndefined"

text \<open>The declared tasks with the values they resolved, in the order of arrival.\<close>

definition resolved :: "world \<Rightarrow> obj \<Rightarrow> obj" where
  "resolved w prog = map (\<lambda>(k, out). (k, value_of out)) (task_outcomes w prog)"

text \<open>
  Flattening, stated on its own: given the results with the latest first, the field
  \<^verbatim>\<open>f\<close> of the Context is the field \<^verbatim>\<open>f\<close> of the latest result that has one, and the
  field of \<^verbatim>\<open>program\<close> before the merge when no result has one.
\<close>

fun flattened :: "obj \<Rightarrow> obj \<Rightarrow> string \<Rightarrow> jsval" where
  "flattened [] prog f = field prog f"
| "flattened ((key, value) # earlier) prog f =
     (if f \<in> set (keys value) then get value f else flattened earlier prog f)"

section \<open>Sample invocations\<close>

text \<open>
  \<^verbatim>\<open>yoke deploy --appId Y\<close> with a complete credentials file, a manifest bound to the
  application \<^verbatim>\<open>X\<close>, the credentials read first, and a command that hands back a
  keep-alive function from the event loop. The Context that the command then receives is written out.
\<close>

definition example_world :: world where
  "example_world =
     \<lparr>argv_command = Some ''deploy'',
      flags = [(''appId'', VStr ''Y'')],
      dotfile = Json (VObj [(''userId'', VStr ''u1''), (''secretKey'', VStr ''s1'')]),
      packageJsonPath = ''/app/package.json'',
      manifest = Json (VObj [(''_aerobatic'', VObj [(''appId'', VStr ''X'')]),
                             (''version'', VStr ''1.0.0'')]),
      config_first = False,
      commands = (\<lambda>name ctx. Completes VNull (VFun 7)),
      sync_completion = False\<rparr>"

definition example_context :: obj where
  "example_context =
     [(''appId'', VStr ''Y''), (''requireCredentials'', VBool True),
      (''loadNpmConfig'', VBool True), (''userId'', VStr ''u1''),
      (''secretKey'', VStr ''s1''), (''appVersion'', VStr ''1.0.0''),
      (''npmScripts'', VObj [])]"

section \<open>Auxiliary facts\<close>

subsection \<open>Fields of objects\<close>

lemma field_update: "field (AList.update k v ps) k' = (if k' = k then v else field ps k')"
  by (simp add: field_def update_conv')

lemma field_Nil: "field [] k = VUndefined"
  by (simp add: field_def)

lemma field_Cons: "field ((k, v) # ps) k' = (if k' = k then v else field ps k')"
  by (simp add: field_def)

lemma field_fold_update:
  "field (fold (\<lambda>k d. AList.update k (f k) d) ks d) k' = (if k' \<in> set ks then f k' else field d k')"
  by (induction ks arbitrary: d) (auto simp: field_update)

lemma field_extend_obj:
  "field (extend_obj d src) k = (if k \<in> set (keys src) then get src k else field d k)"
  by (simp add: extend_obj_def field_fold_update)

subsection \<open>The exit event and the components of the state\<close>

lemma kills_append: "kills (a @ b) = kills a @ kills b"
  by (induction a rule: kills.induct) simp_all

lemma errors_append: "errors (a @ b) = errors a @ errors b"
  by (induction a rule: errors.induct) simp_all

lemma errors_exitings: "errors (exitings ls) = []"
  by (induction ls rule: exitings.induct) simp_all

lemma errors_member: "(Error m \<in> set es) = (m \<in> set (errors es))"
  by (induction es rule: errors.induct) auto

lemma fold_run_listener:
  "program (fold run_listener ls st) = program st"
  "env (fold run_listener ls st) = env st"
  "invoked (fold run_listener ls st) = invoked st"
  "listeners (fold run_listener ls st) = listeners st"
  "status (fold run_listener ls st) = status st"
  "called (fold run_listener ls st) = called st @ kills ls"
  "logged (fold run_listener ls st) = logged st @ exitings ls"
  by (induction ls arbitrary: st rule: kills.induct) simp_all

lemma emit_exit_simps:
  "program (emit_exit c st) = program st"
  "env (emit_exit c st) = env st"
  "invoked (emit_exit c st) = invoked st"
  "listeners (emit_exit c st) = listeners st"
  "status (emit_exit c st) = (if status st = Running then Exited c else status st)"
  "called (emit_exit c st) = (if status st = Running then called st @ kills (listeners st) else called st)"
  by (simp_all add: emit_exit_def fold_run_listener)

lemma crash_simps:
  "program (crash st) = program st"
  "invoked (crash st) = invoked st"
  "listeners (crash st) = listeners st"
  "status (crash st) = Crashed"
  "called (crash st) = called st @ kills (listeners st)"
  "logged (crash st) = logged st @ exitings (listeners st)"
  by (simp_all add: crash_def fold_run_listener)

lemma register_exiting_simps:
  "program (register_exiting st) = program st"
  "logged (register_exiting st) = logged st"
  "invoked (register_exiting st) = invoked st"
  "called (register_exiting st) = called st"
  "status (register_exiting st) = status st"
  "kills (listeners (register_exiting st)) = kills (listeners st)"
  by (simp_all add: register_exiting_def kills_append)

lemma report_simps:
  "program (report e st) = program st"
  "env (report e st) = env st"
  "invoked (report e st) = invoked st"
  "listeners (report e st) = listeners st"
  "status (report e st) = status st"
  "called (report e st) = called st"
  by (cases e; simp add: log_error_def)+

lemma setProgramDefaults_simps:
  "program (setProgramDefaults st) = program st"
  "logged (setProgramDefaults st) = logged st"
  "invoked (setProgramDefaults st) = invoked st"
  "listeners (setProgramDefaults st) = listeners st"
  "status (setProgramDefaults st) = status st"
  "called (setProgramDefaults st) = called st"
  by (simp_all add: setProgramDefaults_def Let_def)

lemma command_done_invoked: "invoked (command_done e k st) = invoked st"
  by (simp add: command_done_def process_exit_def emit_exit_simps report_simps)

lemma dispatch_invoked: "invoked (dispatch n w st) = invoked st @ [(n, program st)]"
  by (cases "commands w n (program st)") (simp_all add: dispatch_def Let_def command_done_invoked)

lemma dispatch_completes:
  "commands w n (program S) = Completes e k \<Longrightarrow>
   dispatch n w S = command_done e k (S\<lparr>invoked := invoked S @ [(n, program S)]\<rparr>)"
  by (simp add: dispatch_def Let_def)

lemma log_error_simps:
  "status (log_error m st) = status st"
  "logged (log_error m st) = logged st @ [Error m]"
  by (simp_all add: log_error_def)

lemma dispatch_status:
  assumes "status S = Running" and "errors (logged S) = []"
  shows "(errors (logged (dispatch n w S)) = [] \<and> status (dispatch n w S) = Running)
         \<or> status (dispatch n w S) = Exited 0"
proof (cases "commands w n (program S)")
  case NoCallback
  with assms show ?thesis by (simp add: dispatch_def Let_def)
next
  case (Completes e k)
  then have "dispatch n w S = command_done e k (S\<lparr>invoked := invoked S @ [(n, program S)]\<rparr>)"
    by (rule dispatch_completes)
  with assms show ?thesis
    by (simp add: command_done_def process_exit_def emit_exit_simps report_simps)
qed

subsection \<open>The action, case by case\<close>

text \<open>
  An action started in a running process ends in one of three ways: a task threw, the
  join ended with an error that is reported before \<^verbatim>\<open>process.exit()\<close>, or the command
  was dispatched from a state in which nothing but \<^verbatim>\<open>program\<close> and \<^verbatim>\<open>process.env\<close>
  has changed.
\<close>

lemma commandAction_cases:
  assumes "status st = Running"
  shows "(commandAction n options w st = crash (st\<lparr>program := apply_options options (program st)\<rparr>))
       \<or> (\<exists>e. truthy e \<and> commandAction n options w st = process_exit (report e (st\<lparr>program := apply_options options (program st)\<rparr>)))
       \<or> (\<exists>S. commandAction n options w st = dispatch n w S \<and> status S = Running
              \<and> listeners S = listeners st \<and> called S = called st \<and> logged S = logged st \<and> invoked S = invoked st)"
proof -
  define st1 where "st1 = st\<lparr>program := apply_options options (program st)\<rparr>"
  have c: "commandAction n options w st =
      (case parallel (task_outcomes w (program st1)) [] of
           Uncaught \<Rightarrow> crash st1
         | Final err results \<Rightarrow> init_done n w err results st1)"
    unfolding commandAction_def Let_def st1_def by (rule refl)
  show ?thesis
  proof (cases "parallel (task_outcomes w (program st1)) []")
    case Uncaught
    then have "commandAction n options w st = crash st1" by (simp add: c)
    then show ?thesis by (simp add: st1_def)
  next
    case (Final err results)
    then have i: "commandAction n options w st = init_done n w err results st1" by (simp add: c)
    show ?thesis
    proof (cases "truthy err")
      case True
      then have "commandAction n options w st = process_exit (report err st1)"
        by (simp add: i init_done_def)
      with True show ?thesis unfolding st1_def by blast
    next
      case False
      define S where "S = setProgramDefaults (st1\<lparr>program := merge_results results (program st1)\<rparr>)"
      have "commandAction n options w st = dispatch n w S"
        using False by (simp add: i init_done_def S_def)
      moreover have "status S = Running \<and> listeners S = listeners st \<and> called S = called st
          \<and> logged S = logged st \<and> invoked S = invoked st"
        using assms by (simp add: S_def st1_def setProgramDefaults_simps)
      ultimately show ?thesis by blast
    qed
  qed
qed

lemma commandAction_status:
  assumes "status st = Running" and "errors (logged st) = []"
  shows "(errors (logged (commandAction n options w st)) = []
            \<and> (status (commandAction n options w st) = Running
                \<or> status (commandAction n options w st) = Crashed))
         \<or> status (commandAction n options w st) = Exited 0"
  using commandAction_cases [OF assms(1), of n options w]
proof (elim disjE exE conjE)
  assume "commandAction n options w st = crash (st\<lparr>program := apply_options options (program st)\<rparr>)"
  then show ?thesis using assms(2) by (simp add: crash_simps errors_append errors_exitings)
next
  fix e
  assume "commandAction n options w st
    = process_exit (report e (st\<lparr>program := apply_options options (program st)\<rparr>))"
  then show ?thesis using assms(1) by (simp add: process_exit_def emit_exit_simps report_simps)
next
  fix S
  assume "commandAction n options w st = dispatch n w S" "status S = Running" "logged S = logged st"
  with dispatch_status [of S n w] assms(2) show ?thesis by auto
qed

lemma commandAction_invoked:
  assumes "status st = Running" and "invoked st = []"
  shows "invoked (commandAction n options w st) = []
         \<or> (\<exists>S. commandAction n options w st = dispatch n w S \<and> status S = Running
               \<and> listeners S = listeners st \<and> called S = called st \<and> invoked S = [])"
  using commandAction_cases [OF assms(1), of n options w]
proof (elim disjE exE conjE)
  assume "commandAction n options w st = crash (st\<lparr>program := apply_options options (program st)\<rparr>)"
  then show ?thesis using assms(2) by (simp add: crash_simps)
next
  fix e
  assume "commandAction n options w st
    = process_exit (report e (st\<lparr>program := apply_options options (program st)\<rparr>))"
  then show ?thesis using assms(2) by (simp add: process_exit_def emit_exit_simps report_simps)
next
  fix S
  assume "commandAction n options w st = dispatch n w S" "status S = Running"
    "listeners S = listeners st" "called S = called st" "invoked S = invoked st"
  with assms(2) have "commandAction n options w st = dispatch n w S \<and> status S = Running
      \<and> listeners S = listeners st \<and> called S = called st \<and> invoked S = []"
    by simp
  then show ?thesis by blast
qed

text \<open>
  The script runs the action before or after line 80. Either way the process ends
  running or dead with no error line logged, or exited with code 0; and a command that
  was dispatched was dispatched from a running state with no cleanup listener.
\<close>

lemma main_action:
  assumes "argv_command w = Some c" and "command_table c = Some (n, options)"
  shows "main w = register_exiting (commandAction n options w (initial w))
       \<or> main w = commandAction n options w (register_exiting (initial w))"
  using assms by (simp add: main_def)

lemma initial_simps:
  "status (initial w) = Running" "logged (initial w) = []" "invoked (initial w) = []"
  "called (initial w) = []" "listeners (initial w) = []" "program (initial w) = flags w"
  by (simp_all add: initial_def)

lemma main_status:
  "(errors (logged (main w)) = [] \<and> (status (main w) = Running \<or> status (main w) = Crashed))
   \<or> status (main w) = Exited 0"
proof (cases "argv_command w")
  case None
  then show ?thesis by (simp add: main_def register_exiting_simps initial_simps)
next
  case (Some c)
  show ?thesis
  proof (cases "command_table c")
    case None
    with Some show ?thesis
      by (simp add: main_def process_exit_def emit_exit_simps log_error_simps initial_simps)
  next
    case (Some no)
    obtain n options where no: "no = (n, options)" by (cases no)
    have "main w = register_exiting (commandAction n options w (initial w))
        \<or> main w = commandAction n options w (register_exiting (initial w))"
      using main_action [OF \<open>argv_command w = Some c\<close>, of n options] Some no by simp
    then show ?thesis
    proof (elim disjE)
      assume m: "main w = register_exiting (commandAction n options w (initial w))"
      from commandAction_status [of "initial w" n options w]
      show ?thesis by (simp add: m register_exiting_simps initial_simps)
    next
      assume m: "main w = commandAction n options w (register_exiting (initial w))"
      from commandAction_status [of "register_exiting (initial w)" n options w]
      show ?thesis by (simp add: m register_exiting_simps initial_simps)
    qed
  qed
qed

lemma main_invoked:
  assumes "invoked (main w) = [(name, ctx)]"
  shows "\<exists>S. status S = Running \<and> kills (listeners S) = [] \<and> called S = [] \<and> invoked S = []
           \<and> program S = ctx
           \<and> (main w = dispatch name w S \<or> main w = register_exiting (dispatch name w S))"
proof (cases "argv_command w")
  case None
  with assms show ?thesis by (simp add: main_def register_exiting_simps initial_simps)
next
  case (Some c)
  show ?thesis
  proof (cases "command_table c")
    case None
    with Some assms show ?thesis
      by (simp add: main_def process_exit_def emit_exit_simps log_error_def initial_def)
  next
    case (Some no)
    obtain n options where no: "no = (n, options)" by (cases no)
    have "main w = register_exiting (commandAction n options w (initial w))
        \<or> main w = commandAction n options w (register_exiting (initial w))"
      using main_action [OF \<open>argv_command w = Some c\<close>, of n options] Some no by simp
    then show ?thesis
    proof (elim disjE)
      assume m: "main w = register_exiting (commandAction n options w (initial w))"
      from commandAction_invoked [of "initial w" n options w] assms m
      obtain S where S: "commandAction n options w (initial w) = dispatch n w S"
        "status S = Running" "listeners S = []" "called S = []" "invoked S = []"
        by (auto simp: register_exiting_simps initial_simps)
      from assms have "n = name" "program S = ctx"
        by (simp_all add: m S register_exiting_simps dispatch_invoked)
      with m S show ?thesis by auto
    next
      assume m: "main w = commandAction n options w (register_exiting (initial w))"
      from commandAction_invoked [of "register_exiting (initial w)" n options w] assms m
      obtain S where S: "main w = dispatch n w S" "status S = Running"
        "listeners S = listeners (register_exiting (initial w))" "called S = []" "invoked S = []"
        by (auto simp: register_exiting_simps initial_simps)
      from assms have "n = name" "program S = ctx"
        by (simp_all add: S dispatch_invoked)
      moreover have "kills (listeners S) = []"
        by (simp add: S(3) register_exiting_simps initial_simps)
      ultimately show ?thesis using S by auto
    qed
  qed
qed

subsection \<open>The command table and the options\<close>

lemma table_options:
  assumes "command_table c = Some (n, options)"
  shows "options = [(''requireCredentials'', VBool False), (''loadNpmConfig'', VBool False)]
       \<or> options = [(''loadNpmConfig'', VBool False)]
       \<or> options = []
       \<or> options = [(''simulator'', VBool True)]"
  using assms by (simp add: command_table_def split: if_splits)

lemma defaults_table:
  "defaults [(''requireCredentials'', VBool False), (''loadNpmConfig'', VBool False)] option_defaults
     = [(''requireCredentials'', VBool False), (''loadNpmConfig'', VBool False)]"
  "defaults [(''loadNpmConfig'', VBool False)] option_defaults
     = [(''loadNpmConfig'', VBool False), (''requireCredentials'', VBool True)]"
  "defaults [] option_defaults
     = [(''requireCredentials'', VBool True), (''loadNpmConfig'', VBool True)]"
  "defaults [(''simulator'', VBool True)] option_defaults
     = [(''simulator'', VBool True), (''requireCredentials'', VBool True), (''loadNpmConfig'', VBool True)]"
  by (simp_all add: defaults_def option_defaults_def field_def)

lemma field_apply_options:
  "field (apply_options options prog) k =
     (if k \<in> fst ` set (defaults options option_defaults)
      then field (defaults options option_defaults) k else field prog k)"
  by (simp add: apply_options_def field_extend_obj keys_def get_def)

lemma table_keeps_flags:
  assumes "command_table c = Some (n, options)"
  shows "field (apply_options options prog) ''userId'' = field prog ''userId''"
    and "field (apply_options options prog) ''secretKey'' = field prog ''secretKey''"
  using table_options [OF assms] by (auto simp: field_apply_options defaults_table)

lemma init_done_dotfile:
  "init_done n (w\<lparr>dotfile := f\<rparr>) err rs st = init_done n w err rs st"
  by (simp add: init_done_def dispatch_def)

lemma task_outcomes_dotfile:
  assumes "''credentials'' \<notin> set (initTasks prog)"
  shows "task_outcomes (w\<lparr>dotfile := f\<rparr>) prog = task_outcomes w prog"
  using assms by (auto simp: task_outcomes_def arrival_def run_task_def)

subsection \<open>The join\<close>

lemma parallel_first_failure:
  assumes "list_all (\<lambda>(k', out). succeeded out) pre" and "truthy e"
  shows "\<exists>rs'. parallel (pre @ (k, Callback e v) # post) rs = Final e rs'"
  using assms
proof (induction pre arbitrary: rs)
  case Nil
  then show ?case by simp
next
  case (Cons a pre)
  obtain k' out where a: "a = (k', out)" by (cases a)
  with Cons.prems obtain e' v' where out: "out = Callback e' v'" "\<not> truthy e'"
    by (cases out) auto
  from Cons.IH [of "AList.update k' v' rs"] Cons.prems
  show ?case by (simp add: a out)
qed

lemma commandAction_first_failure:
  assumes "task_outcomes w (apply_options options (program st)) = pre @ (k, Callback e v) # post"
    and "list_all (\<lambda>(k', out). succeeded out) pre" and "truthy e"
  shows "commandAction name options w st
         = process_exit (report e (st\<lparr>program := apply_options options (program st)\<rparr>))"
proof -
  from parallel_first_failure [OF assms(2,3)] obtain rs' where
    "parallel (pre @ (k, Callback e v) # post) [] = Final e rs'" by blast
  with assms(1,3) show ?thesis
    by (simp add: commandAction_def Let_def init_done_def)
qed

lemma commandAction_no_task:
  assumes "initTasks (apply_options options (program st)) = []"
  shows "invoked (commandAction n options w st)
         = invoked st @ [(n, apply_options options (program st))]"
  using assms
  by (simp add: commandAction_def Let_def task_outcomes_def arrival_def init_done_def
      merge_results_def dispatch_invoked setProgramDefaults_simps)

lemma login_dispatched:
  assumes "argv_command w = Some ''login''"
  shows "initTasks (apply_options [(''requireCredentials'', VBool False), (''loadNpmConfig'', VBool False)] (flags w)) = []"
    and "invoked (main w) = [(''login'', apply_options [(''requireCredentials'', VBool False), (''loadNpmConfig'', VBool False)] (flags w))]"
proof -
  let ?o = "[(''requireCredentials'', VBool False), (''loadNpmConfig'', VBool False)]"
  show t: "initTasks (apply_options ?o (flags w)) = []"
    by (simp add: initTasks_def field_apply_options defaults_table field_Cons field_Nil)
  have c: "command_table ''login'' = Some (''login'', ?o)" by (simp add: command_table_def)
  from main_action [OF assms c]
  show "invoked (main w) = [(''login'', apply_options ?o (flags w))]"
  proof
    assume "main w = register_exiting (commandAction ''login'' ?o w (initial w))"
    then show ?thesis
      using t by (simp add: register_exiting_simps commandAction_no_task initial_simps)
  next
    assume "main w = commandAction ''login'' ?o w (register_exiting (initial w))"
    then show ?thesis
      using t by (simp add: register_exiting_simps commandAction_no_task initial_simps)
  qed
qed

subsection \<open>Named properties of objects and arrays\<close>

text \<open>
  The last character of an index name is a digit, so that the names the program reads
  and writes are never index names, and assigning such a name to an object or an array
  is seen by a later read.
\<close>

lemma last_index_name: "of_char (last (index_name n)) = 48 + n mod 10"
proof -
  have "last (index_name n) = char_of (48 + n mod 10)"
    by (subst index_name.simps) simp
  moreover have "(48 + n mod 10) mod 256 = 48 + n mod 10"
    by (rule mod_less) (simp add: less_Suc_eq_le [symmetric] add.commute trans_less_add2)
  ultimately show ?thesis by (simp add: of_char_of)
qed

lemma named_not_index:
  assumes "of_char (last k) \<ge> (58::nat)"
  shows "k \<noteq> index_name n"
proof
  assume "k = index_name n"
  with last_index_name [of n] assms have "58 \<le> 48 + n mod 10" by simp
  then show False by presburger
qed

lemma field_index_entries:
  assumes "of_char (last k) \<ge> (58::nat)"
  shows "field (zip (map index_name [0..<length xs]) xs @ ps) k = field ps k"
proof -
  have "k \<notin> set (map index_name [0..<length xs])"
    using named_not_index [OF assms] by auto
  then have n: "map_of (zip (map index_name [0..<length xs]) xs) k = None"
    by (simp add: map_of_zip_is_None)
  show ?thesis by (simp add: field_def map_add_def n)
qed

lemma get_put:
  assumes "isObject v" and "of_char (last k') \<ge> (58::nat)"
  shows "get (put v k x) k' = (if k' = k then x else get v k')"
  using assms by (cases v) (simp_all add: get_def field_index_entries field_update)

lemma isObject_put: "isObject (put v k x) = isObject v"
  by (cases v) simp_all

lemma keys_isObject: "k \<in> set (keys v) \<Longrightarrow> isObject v"
  by (cases v) (simp_all add: keys_def)

lemma isObject_truthy: "isObject v \<Longrightarrow> truthy v"
  by (cases v) simp_all

lemma get_nullish: "nullish v \<Longrightarrow> get v k = VUndefined"
  by (cases v) (simp_all add: get_def field_def)

lemma named_keys:
  "of_char (last ''appId'') \<ge> (58::nat)"
  "of_char (last ''appVersion'') \<ge> (58::nat)"
  "of_char (last ''npmScripts'') \<ge> (58::nat)"
  by simp_all

subsection \<open>The project configuration resolver\<close>

lemma messages_nonempty:
  "missing_section_msg \<noteq> []" "missing_appId_msg \<noteq> []"
  "no_dotfile_msg \<noteq> []" "parse_dotfile_msg \<noteq> []" "missing_info_msg \<noteq> []"
  by (simp_all add: missing_section_msg_def missing_appId_msg_def no_dotfile_msg_def
      parse_dotfile_msg_def missing_info_msg_def)

lemma section_not_appId: "missing_section_msg \<noteq> missing_appId_msg"
  by (simp add: missing_section_msg_def missing_appId_msg_def)

lemma resolved_config:
  assumes "\<not> nullish json" and "truthy (get json ''_aerobatic'')"
    and "truthy (field prog ''appId'') \<or> truthy (get (get json ''_aerobatic'') ''appId'')"
  shows "loadAerobaticNpmConfig prog path (Json json) =
     Callback VNull
       (put (put (if truthy (field prog ''appId'')
                  then put (get json ''_aerobatic'') ''appId'' (field prog ''appId'')
                  else get json ''_aerobatic'')
               ''appVersion'' (get json ''version''))
          ''npmScripts'' (if truthy (get json ''scripts'') then get json ''scripts'' else VObj []))"
  using assms by (auto simp: loadAerobaticNpmConfig_def Let_def)

lemma resolved_only_if:
  assumes "loadAerobaticNpmConfig prog path (Json json) = Callback err cfg" and "\<not> truthy err"
  shows "\<not> nullish json \<and> truthy (get json ''_aerobatic'')
     \<and> (truthy (field prog ''appId'') \<or> truthy (get (get json ''_aerobatic'') ''appId''))"
  using assms
  by (auto simp: loadAerobaticNpmConfig_def Let_def messages_nonempty split: if_splits)

lemma missing_appId_iff:
  "(loadAerobaticNpmConfig prog path f = Callback (VStr missing_appId_msg) VUndefined)
   = (\<exists>j. f = Json j \<and> \<not> nullish j \<and> truthy (get j ''_aerobatic'')
          \<and> \<not> truthy (field prog ''appId'') \<and> \<not> truthy (get (get j ''_aerobatic'') ''appId''))"
proof (cases f)
  case NoFile
  then show ?thesis by (simp add: loadAerobaticNpmConfig_def missing_appId_msg_def)
next
  case (Unreadable st m)
  then show ?thesis by (simp add: loadAerobaticNpmConfig_def)
next
  case Unparsable
  then show ?thesis by (simp add: loadAerobaticNpmConfig_def missing_appId_msg_def)
next
  case (Json j)
  then show ?thesis
    by (auto simp: loadAerobaticNpmConfig_def Let_def section_not_appId)
qed

lemma overlay_first_same:
  assumes "isObject (get json ''_aerobatic'')"
  shows "loadAerobaticNpmConfig prog path (Json json)
         = loadAerobaticNpmConfig_overlay_first prog path (Json json)"
  using assms
  by (simp add: loadAerobaticNpmConfig_def loadAerobaticNpmConfig_overlay_first_def Let_def
      get_put named_keys)

subsection \<open>The merge\<close>

lemma update_fresh: "k \<notin> fst ` set rs \<Longrightarrow> AList.update k v rs = rs @ [(k, v)]"
  by (induction rs) auto

lemma parallel_all_succeed:
  assumes "list_all (\<lambda>(k, out). succeeded out) os" and "distinct (map fst os)"
    and "fst ` set os \<inter> fst ` set rs = {}"
  shows "parallel os rs = Final VUndefined (rs @ map (\<lambda>(k, out). (k, value_of out)) os)"
  using assms
proof (induction os arbitrary: rs)
  case Nil
  then show ?case by simp
next
  case (Cons a os)
  obtain k out where a: "a = (k, out)" by (cases a)
  with Cons.prems(1) obtain e v where out: "out = Callback e v" "\<not> truthy e"
    by (cases out) auto
  from Cons.prems(3) a have fresh: "k \<notin> fst ` set rs" by auto
  have "parallel os (rs @ [(k, v)]) =
      Final VUndefined ((rs @ [(k, v)]) @ map (\<lambda>(k, out). (k, value_of out)) os)"
  proof (rule Cons.IH)
    show "list_all (\<lambda>(k, out). succeeded out) os" using Cons.prems(1) by simp
    show "distinct (map fst os)" using Cons.prems(2) by simp
    show "fst ` set os \<inter> fst ` set (rs @ [(k, v)]) = {}"
      using Cons.prems(2,3) a by auto
  qed
  then show ?case by (simp add: a out update_fresh [OF fresh])
qed

lemma distinct_task_outcomes: "distinct (map fst (task_outcomes w prog))"
  by (simp add: task_outcomes_def comp_def arrival_def initTasks_def)

lemma flattened_snoc:
  "flattened (rs @ [(k, v)]) prog f = flattened rs (extend_obj prog v) f"
  by (induction rs prog f rule: flattened.induct) (simp_all add: field_extend_obj)

lemma field_merge_results: "field (merge_results rs prog) f = flattened (rev rs) prog f"
proof (induction rs arbitrary: prog)
  case Nil
  then show ?case by (simp add: merge_results_def)
next
  case (Cons a rs)
  obtain k v where a: "a = (k, v)" by (cases a)
  have "merge_results (a # rs) prog = merge_results rs (extend_obj prog v)"
    by (simp add: merge_results_def a)
  then show ?case by (simp add: Cons.IH a flattened_snoc)
qed

lemma command_done_program: "program (command_done e k st) = program st"
  by (simp add: command_done_def process_exit_def emit_exit_simps report_simps)

lemma dispatch_program: "program (dispatch n w st) = program st"
  by (cases "commands w n (program st)") (simp_all add: dispatch_def Let_def command_done_program)

lemma commandAction_all_succeed:
  assumes "list_all (\<lambda>(k, out). succeeded out) (task_outcomes w (apply_options options (program st)))"
  shows "program (commandAction name options w st)
           = merge_results (resolved w (apply_options options (program st)))
               (apply_options options (program st))"
    and "invoked (commandAction name options w st)
           = invoked st @ [(name, program (commandAction name options w st))]"
proof -
  let ?p = "apply_options options (program st)"
  have "parallel (task_outcomes w ?p) [] = Final VUndefined ([] @ resolved w ?p)"
    unfolding resolved_def
    by (rule parallel_all_succeed [OF assms distinct_task_outcomes]) simp
  then have c: "commandAction name options w st
      = dispatch name w (setProgramDefaults (st\<lparr>program := merge_results (resolved w ?p) ?p\<rparr>))"
    by (simp add: commandAction_def Let_def init_done_def)
  show "program (commandAction name options w st) = merge_results (resolved w ?p) ?p"
    by (simp add: c dispatch_program setProgramDefaults_simps)
  then show "invoked (commandAction name options w st)
           = invoked st @ [(name, program (commandAction name options w st))]"
    by (simp add: c dispatch_invoked setProgramDefaults_simps)
qed

lemma initTasks_cases:
  "initTasks prog = [] \<or> initTasks prog = [''credentials''] \<or> initTasks prog = [''config'']
   \<or> initTasks prog = [''credentials'', ''config'']"
  by (simp add: initTasks_def)

lemma run_task_order: "run_task (w\<lparr>config_first := b\<rparr>) prog k = run_task w prog k"
  by (simp add: run_task_def)

lemma flattened_order:
  assumes "set (keys (value_of (run_task w prog ''credentials'')))
           \<inter> set (keys (value_of (run_task w prog ''config''))) = {}"
  shows "flattened (rev (resolved (w\<lparr>config_first := b\<rparr>) prog)) prog f
         = flattened (rev (resolved w prog)) prog f"
  using initTasks_cases [of prog] assms
  by (auto simp: resolved_def task_outcomes_def arrival_def run_task_order)

lemma all_succeed_order:
  "list_all (\<lambda>(k, out). succeeded out) (task_outcomes (w\<lparr>config_first := b\<rparr>) prog)
   = list_all (\<lambda>(k, out). succeeded out) (task_outcomes w prog)"
  by (simp add: task_outcomes_def arrival_def run_task_order list_all_iff)

subsection \<open>The credential resolver and the error reporter\<close>

text \<open>
  The three failure messages of the credential resolver differ; a credentials file that
  parses to anything but \<^verbatim>\<open>null\<close> and lacks a non-empty \<^verbatim>\<open>userId\<close> or
  \<^verbatim>\<open>secretKey\<close> gets the missing-information message; and the resolver throws for
  \<^verbatim>\<open>null\<close> only.
\<close>

lemma credential_messages_distinct:
  "no_dotfile_msg \<noteq> parse_dotfile_msg" "no_dotfile_msg \<noteq> missing_info_msg"
  "parse_dotfile_msg \<noteq> missing_info_msg"
  by (simp_all add: no_dotfile_msg_def parse_dotfile_msg_def missing_info_msg_def)

lemma loadCredentials_missing_information:
  assumes "\<not> nullish credentials"
    and "isEmpty (get credentials ''userId'') \<or> isEmpty (get credentials ''secretKey'')"
  shows "loadCredentials (Json credentials) = Callback (VStr missing_info_msg) VUndefined"
  using assms by (simp add: loadCredentials_def)

lemma loadCredentials_throws_iff:
  "(loadCredentials f = Throws) = (\<exists>credentials. f = Json credentials \<and> nullish credentials)"
  by (cases f) (simp_all add: loadCredentials_def)

text \<open>An \<^verbatim>\<open>Error\<close> and a string are reported by one line.\<close>

lemma report_one_line:
  "logged (report (VError stack msg) st)
     = logged st @ [Error (case stack of None \<Rightarrow> msg | Some s \<Rightarrow> if s \<noteq> [] then s else msg)]"
  "logged (report (VStr s) st) = logged st @ [Error s]"
  by (simp_all add: log_error_def)

section \<open>The process lifecycle\<close>

text \<open>
  The \<^verbatim>\<open>exit\<close> event after a keep-alive completion. When the dispatched command calls
  its completion callback with no error and a function, the process is left running and
  the function has not been called; the \<^verbatim>\<open>exit\<close> event, whatever its code, then calls
  the function exactly once and ends the process, and the event is not handled a second
  time.
\<close>

lemma cleanup_at_exit_event:
  assumes "invoked (main w) = [(name, ctx)]"
    and "commands w name ctx = Completes err onKill"
    and "\<not> truthy err"
    and "isFunction onKill"
  shows "status (main w) = Running \<and> called (main w) = []
         \<and> called (emit_exit code (main w)) = [onKill]
         \<and> status (emit_exit code (main w)) = Exited code
         \<and> emit_exit code' (emit_exit code (main w)) = emit_exit code (main w)"
proof -
  from main_invoked [OF assms(1)] obtain S where
    S: "program S = ctx" "status S = Running" "kills (listeners S) = []" "called S = []"
    and m: "main w = dispatch name w S \<or> main w = register_exiting (dispatch name w S)"
    by blast
  define K where "K = S\<lparr>invoked := invoked S @ [(name, program S)],
      listeners := listeners S @ [OnKill onKill]\<rparr>"
  have "dispatch name w S = command_done err onKill (S\<lparr>invoked := invoked S @ [(name, program S)]\<rparr>)"
    using S(1) assms(2) by (simp add: dispatch_completes)
  then have d: "dispatch name w S = K"
    using assms(3,4) by (simp add: command_done_def K_def)
  have K: "status K = Running" "called K = []" "kills (listeners K) = [onKill]"
    using S by (simp_all add: K_def kills_append)
  have r: "status (main w) = Running" "called (main w) = []" "kills (listeners (main w)) = [onKill]"
    using m K by (auto simp: d register_exiting_simps)
  have "emit_exit code' (emit_exit code (main w)) = emit_exit code (main w)"
    by (simp add: emit_exit_def [of code'] emit_exit_simps)
  then show ?thesis
    using r by (simp add: emit_exit_simps)
qed

text \<open>
  Claim C4 at a failing input. In the sample invocation \<^verbatim>\<open>deploy\<close> hands back the
  keep-alive function 7 and the process stays open with the two \<^verbatim>\<open>exit\<close> listeners of
  lines 80 and 138. The comment of line 137 waits for \<^verbatim>\<open>SIGINT\<close>, but no listener for
  the signal is registered: when the interrupt arrives the process ends and the function
  has not been called. Only the \<^verbatim>\<open>exit\<close> event calls it.
\<close>

theorem interrupt_skips_cleanup:
  "status (main example_world) = Running
   \<and> listeners (main example_world) = [LogExiting, OnKill (VFun 7)]
   \<and> status (sigint (main example_world)) = Killed
   \<and> called (sigint (main example_world)) = []
   \<and> called (emit_exit 0 (main example_world)) = [VFun 7]"
  by code_simp

text \<open>
  Claim C10. When the dispatched command calls its completion callback with no error, the
  process stays open if and only if the second argument is a function; for any other
  second argument, truthy or not, the process exits at once with no cleanup listener
  registered and nothing called.
\<close>

theorem keep_alive_only_for_function:
  assumes "invoked (main w) = [(name, ctx)]"
    and "commands w name ctx = Completes err onKill"
    and "\<not> truthy err"
  shows "(\<not> isFunction onKill \<longrightarrow>
            status (main w) = Exited 0 \<and> kills (listeners (main w)) = [] \<and> called (main w) = [])
         \<and> ((status (main w) = Running) = isFunction onKill)"
proof -
  from main_invoked [OF assms(1)] obtain S where
    S: "program S = ctx" "status S = Running" "kills (listeners S) = []" "called S = []"
    and m: "main w = dispatch name w S \<or> main w = register_exiting (dispatch name w S)"
    by blast
  define D where "D = dispatch name w S"
  have "D = command_done err onKill (S\<lparr>invoked := invoked S @ [(name, program S)]\<rparr>)"
    unfolding D_def using S(1) assms(2) by (simp add: dispatch_completes)
  then have D: "\<not> isFunction onKill \<longrightarrow>
            status D = Exited 0 \<and> kills (listeners D) = [] \<and> called D = []"
    "(status D = Running) = isFunction onKill"
    using assms(3) S
    by (simp_all add: command_done_def process_exit_def emit_exit_simps kills_append)
  from m have "main w = D \<or> main w = register_exiting D" by (simp add: D_def)
  with D show ?thesis by (auto simp: register_exiting_simps)
qed

text \<open>
  The sample invocation with a command that hands back the truthy string \<^verbatim>\<open>done\<close>
  satisfies the hypotheses of C10, and the process has exited. So it has for
  \<^verbatim>\<open>login\<close>, which declares no task, when the command calls back before it returns:
  the process then exits inside \<^verbatim>\<open>program.parse\<close>, with no listener at all.
\<close>

theorem keep_alive_only_for_function_witness:
  "invoked (main (example_world\<lparr>commands := (\<lambda>name ctx. Completes VNull (VStr ''done''))\<rparr>))
     = [(''deploy'', example_context)]
   \<and> \<not> truthy VNull \<and> \<not> isFunction (VStr ''done'') \<and> truthy (VStr ''done'')
   \<and> status (main (example_world\<lparr>commands := (\<lambda>name ctx. Completes VNull (VStr ''done''))\<rparr>)) = Exited 0
   \<and> status (main (example_world\<lparr>argv_command := Some ''login'',
        commands := (\<lambda>name ctx. Completes VNull (VStr ''done'')), sync_completion := True\<rparr>))
       = Exited 0
   \<and> listeners (main (example_world\<lparr>argv_command := Some ''login'',
        commands := (\<lambda>name ctx. Completes VNull (VStr ''done'')), sync_completion := True\<rparr>)) = []"
proof -
  let ?w = "example_world\<lparr>commands := (\<lambda>name ctx. Completes VNull (VStr ''done''))\<rparr>"
  let ?l = "example_world\<lparr>argv_command := Some ''login'',
        commands := (\<lambda>name ctx. Completes VNull (VStr ''done'')), sync_completion := True\<rparr>"
  let ?c = "[(''appId'', VStr ''Y''), (''requireCredentials'', VBool False),
        (''loadNpmConfig'', VBool False)]"
  have 1: "invoked (main ?w) = [(''deploy'', example_context)]" by code_simp
  have 2: "commands ?w ''deploy'' example_context = Completes VNull (VStr ''done'')" by simp
  have 3: "\<not> truthy VNull" by simp
  have 4: "invoked (main ?l) = [(''login'', ?c)]" by code_simp
  have 5: "commands ?l ''login'' ?c = Completes VNull (VStr ''done'')" by simp
  have 6: "listeners (main ?l) = []" by code_simp
  from keep_alive_only_for_function [OF 1 2 3] have a: "status (main ?w) = Exited 0" by simp
  from keep_alive_only_for_function [OF 4 5 3] have b: "status (main ?l) = Exited 0" by simp
  from 1 a b 6 show ?thesis by simp
qed

text \<open>
  Claim C7. Whatever the invocation, the process is still running, has died of an uncaught
  exception, or has exited with status code 0: every \<^verbatim>\<open>process.exit()\<close> of the script
  is called without a code. In particular an invocation that logged an error line (a
  resolver error, a command error, an unrecognised command) has exited with code 0.
\<close>

theorem exit_status_always_zero:
  "(status (main w) = Running \<or> status (main w) = Crashed \<or> status (main w) = Exited 0)
   \<and> (Error m \<in> set (logged (main w)) \<longrightarrow> status (main w) = Exited 0)"
  using main_status [of w] by (auto simp: errors_member)

text \<open>
  Three failing invocations for C7: no credentials file, the unknown command word
  \<^verbatim>\<open>publish\<close>, and a command that fails with the message \<^verbatim>\<open>boom\<close>. Each logs its
  error line and exits with code 0.
\<close>

theorem exit_status_always_zero_witness:
  "Error no_dotfile_msg \<in> set (logged (main (example_world\<lparr>dotfile := NoFile\<rparr>)))
   \<and> status (main (example_world\<lparr>dotfile := NoFile\<rparr>)) = Exited 0
   \<and> status (main (example_world\<lparr>argv_command := Some ''publish''\<rparr>)) = Exited 0
   \<and> status (main (example_world\<lparr>commands := (\<lambda>name ctx. Completes (VStr ''boom'') VUndefined)\<rparr>))
       = Exited 0"
proof -
  have 1: "Error no_dotfile_msg \<in> set (logged (main (example_world\<lparr>dotfile := NoFile\<rparr>)))"
    by code_simp
  have 2: "Error ''Not a valid command. Type 'yoke -h' for help.''
      \<in> set (logged (main (example_world\<lparr>argv_command := Some ''publish''\<rparr>)))"
    by code_simp
  have 3: "Error ''boom'' \<in> set (logged (main
      (example_world\<lparr>commands := (\<lambda>name ctx. Completes (VStr ''boom'') VUndefined)\<rparr>)))"
    by code_simp
  from 1 2 3
    exit_status_always_zero [of "example_world\<lparr>dotfile := NoFile\<rparr>" no_dotfile_msg]
    exit_status_always_zero [of "example_world\<lparr>argv_command := Some ''publish''\<rparr>"
       "''Not a valid command. Type 'yoke -h' for help.''"]
    exit_status_always_zero
      [of "example_world\<lparr>commands := (\<lambda>name ctx. Completes (VStr ''boom'') VUndefined)\<rparr>" "''boom''"]
  show ?thesis by blast
qed

section \<open>The error reporter\<close>

text \<open>
  Claim C2 at a failing input. The command fails with the plain object
  \<^verbatim>\<open>{statusCode: 500}\<close>, or with the number 42: the branch of lines 123-130 is entered,
  neither test of lines 124 and 126 holds, and the process exits having logged no error
  line at all; the only line is the \<^verbatim>\<open>Exiting\<close> of the exit listener.
\<close>

theorem unreported_failure_value:
  "logged (main (example_world\<lparr>commands :=
       (\<lambda>name ctx. Completes (VObj [(''statusCode'', VNum 500)]) VUndefined)\<rparr>)) = [Info ''Exiting'']
   \<and> status (main (example_world\<lparr>commands :=
       (\<lambda>name ctx. Completes (VObj [(''statusCode'', VNum 500)]) VUndefined)\<rparr>)) = Exited 0
   \<and> logged (main (example_world\<lparr>commands := (\<lambda>name ctx. Completes (VNum 42) VUndefined)\<rparr>))
       = [Info ''Exiting'']"
  by code_simp

section \<open>The credential resolver\<close>

text \<open>
  Claim C6 at a failing input. A credentials file that holds the JSON text
  \<^verbatim>\<open>null\<close> parses, and line 172 then reads \<^verbatim>\<open>userId\<close> of \<^verbatim>\<open>null\<close> outside the
  \<^verbatim>\<open>try\<close> block: the resolver throws instead of calling back with the
  missing-information message, and the process dies with no error line logged; the only
  line is the \<^verbatim>\<open>Exiting\<close> of the exit listener.
\<close>

theorem null_credentials_file_crashes:
  "loadCredentials (Json VNull) = Throws
   \<and> status (main (example_world\<lparr>dotfile := Json VNull\<rparr>)) = Crashed
   \<and> logged (main (example_world\<lparr>dotfile := Json VNull\<rparr>)) = [Info ''Exiting'']"
  by code_simp

section \<open>The initialisation tasks\<close>

text \<open>
  Claim C9. For a command of the table whose options, once completed by the defaults,
  require credentials, the task \<^verbatim>\<open>credentials\<close> is declared if and only if it is not the
  case that \<^verbatim>\<open>program.userId\<close> and \<^verbatim>\<open>program.secretKey\<close> are both set (truthy, as
  line 97 tests them); and when both are set the run does not depend on the credentials
  file at all, so the credential resolver is not run.
\<close>

theorem credentials_task_iff_flags_missing:
  assumes "command_table c = Some (name, options)"
    and "field (apply_options options (program st)) ''requireCredentials'' = VBool True"
  shows "((''credentials'' \<in> set (initTasks (apply_options options (program st))))
           = (\<not> (truthy (field (program st) ''userId'') \<and> truthy (field (program st) ''secretKey''))))
         \<and> (truthy (field (program st) ''userId'') \<and> truthy (field (program st) ''secretKey'')
              \<longrightarrow> commandAction name options (w\<lparr>dotfile := f\<rparr>) st = commandAction name options w st)"
proof -
  have a: "(''credentials'' \<in> set (initTasks (apply_options options (program st))))
      = (\<not> (truthy (field (program st) ''userId'') \<and> truthy (field (program st) ''secretKey'')))"
    using assms(2) by (simp add: initTasks_def table_keeps_flags [OF assms(1)])
  have "commandAction name options (w\<lparr>dotfile := f\<rparr>) st = commandAction name options w st"
    if "''credentials'' \<notin> set (initTasks (apply_options options (program st)))"
    using that by (simp add: commandAction_def Let_def task_outcomes_dotfile init_done_dotfile
        cong: joined.case_cong)
  with a show ?thesis by blast
qed

text \<open>
  For C9: \<^verbatim>\<open>deploy\<close> requires credentials; with both flags given the task is not
  declared, and without them (the sample invocation) it is.
\<close>

theorem credentials_task_iff_flags_missing_witness:
  "command_table ''deploy'' = Some (''deploy'', [])
   \<and> field (apply_options [] (program (initial (example_world\<lparr>flags := [(''userId'', VStr ''u9''),
        (''secretKey'', VStr ''k9'')]\<rparr>)))) ''requireCredentials'' = VBool True
   \<and> ''credentials'' \<notin> set (initTasks (apply_options [] (program (initial (example_world\<lparr>flags :=
        [(''userId'', VStr ''u9''), (''secretKey'', VStr ''k9'')]\<rparr>)))))
   \<and> ''credentials'' \<in> set (initTasks (apply_options [] (program (initial example_world))))"
proof -
  let ?st = "initial (example_world\<lparr>flags := [(''userId'', VStr ''u9''), (''secretKey'', VStr ''k9'')]\<rparr>)"
  have 1: "command_table ''deploy'' = Some (''deploy'', [])" by code_simp
  have 2: "field (apply_options [] (program ?st)) ''requireCredentials'' = VBool True" by code_simp
  have 3: "field (apply_options [] (program (initial example_world))) ''requireCredentials'' = VBool True"
    by code_simp
  have 4: "truthy (field (program ?st) ''userId'') \<and> truthy (field (program ?st) ''secretKey'')"
    by code_simp
  have 5: "\<not> truthy (field (program (initial example_world)) ''userId'')" by code_simp
  from credentials_task_iff_flags_missing [OF 1 2] credentials_task_iff_flags_missing [OF 1 3] 1 2 4 5
  show ?thesis by blast
qed

text \<open>
  Claim C5. The join is fail-fast: when, in the order of arrival, a task calls back with
  an error after tasks that succeeded, the whole action is the report of that error
  followed by \<^verbatim>\<open>process.exit()\<close>; the values of the tasks that succeeded and
  everything that the later tasks do are discarded (\<^verbatim>\<open>program\<close> holds the options only,
  no command is dispatched). With no task the join ends at once without an error and
  with an empty result, and \<^verbatim>\<open>login\<close>, which declares no task, is dispatched.
\<close>

theorem fail_fast_join:
  "(task_outcomes w (apply_options options (program st)) = pre @ (k, Callback e v) # post
      \<and> list_all (\<lambda>(k', out). succeeded out) pre \<and> truthy e \<and> status st = Running
    \<longrightarrow> commandAction name options w st
          = process_exit (report e (st\<lparr>program := apply_options options (program st)\<rparr>))
        \<and> status (commandAction name options w st) = Exited 0
        \<and> invoked (commandAction name options w st) = invoked st
        \<and> program (commandAction name options w st) = apply_options options (program st))
   \<and> parallel [] [] = Final VUndefined []
   \<and> (argv_command w' = Some ''login''
        \<longrightarrow> initTasks (apply_options
                [(''requireCredentials'', VBool False), (''loadNpmConfig'', VBool False)] (flags w')) = []
          \<and> invoked (main w') = [(''login'', apply_options
                [(''requireCredentials'', VBool False), (''loadNpmConfig'', VBool False)] (flags w'))])"
proof (intro conjI impI)
  assume a: "task_outcomes w (apply_options options (program st)) = pre @ (k, Callback e v) # post
      \<and> list_all (\<lambda>(k', out). succeeded out) pre \<and> truthy e \<and> status st = Running"
  then have c: "commandAction name options w st
      = process_exit (report e (st\<lparr>program := apply_options options (program st)\<rparr>))"
    by (simp add: commandAction_first_failure)
  then show "commandAction name options w st
      = process_exit (report e (st\<lparr>program := apply_options options (program st)\<rparr>))" .
  from a show "status (commandAction name options w st) = Exited 0"
    by (simp add: c process_exit_def emit_exit_simps report_simps)
  show "invoked (commandAction name options w st) = invoked st"
    by (simp add: c process_exit_def emit_exit_simps report_simps)
  show "program (commandAction name options w st) = apply_options options (program st)"
    by (simp add: c process_exit_def emit_exit_simps report_simps)
next
  show "parallel [] [] = Final VUndefined []" by simp
next
  assume "argv_command w' = Some ''login''"
  then show "initTasks (apply_options
      [(''requireCredentials'', VBool False), (''loadNpmConfig'', VBool False)] (flags w')) = []"
    by (rule login_dispatched(1))
next
  assume "argv_command w' = Some ''login''"
  then show "invoked (main w') = [(''login'', apply_options
      [(''requireCredentials'', VBool False), (''loadNpmConfig'', VBool False)] (flags w'))]"
    by (rule login_dispatched(2))
qed

text \<open>
  For C5: the manifest resolves first and the credentials file is missing. The error of
  the credential resolver is the one line logged, nothing is dispatched and the resolved
  configuration is not merged. The invocation of \<^verbatim>\<open>login\<close> is dispatched.
\<close>

theorem fail_fast_join_witness:
  "task_outcomes (example_world\<lparr>dotfile := NoFile, config_first := True\<rparr>)
      (apply_options [] (program (initial example_world)))
     = [(''config'', Callback VNull
          (VObj [(''appId'', VStr ''Y''), (''appVersion'', VStr ''1.0.0''), (''npmScripts'', VObj [])]))]
       @ (''credentials'', Callback (VStr no_dotfile_msg) VUndefined) # []
   \<and> truthy (VStr no_dotfile_msg)
   \<and> logged (commandAction ''deploy'' [] (example_world\<lparr>dotfile := NoFile, config_first := True\<rparr>)
        (initial example_world)) = [Error no_dotfile_msg]
   \<and> invoked (commandAction ''deploy'' [] (example_world\<lparr>dotfile := NoFile, config_first := True\<rparr>)
        (initial example_world)) = []
   \<and> field (program (commandAction ''deploy'' [] (example_world\<lparr>dotfile := NoFile, config_first := True\<rparr>)
        (initial example_world))) ''appVersion'' = VUndefined
   \<and> invoked (main (example_world\<lparr>argv_command := Some ''login''\<rparr>))
       = [(''login'', [(''appId'', VStr ''Y''), (''requireCredentials'', VBool False),
            (''loadNpmConfig'', VBool False)])]"
proof -
  let ?w = "example_world\<lparr>dotfile := NoFile, config_first := True\<rparr>"
  let ?cfg = "VObj [(''appId'', VStr ''Y''), (''appVersion'', VStr ''1.0.0''), (''npmScripts'', VObj [])]"
  have 1: "task_outcomes ?w (apply_options [] (program (initial example_world)))
     = [(''config'', Callback VNull ?cfg)] @ (''credentials'', Callback (VStr no_dotfile_msg) VUndefined) # []"
    by code_simp
  have 2: "list_all (\<lambda>(k', out). succeeded out) [(''config'', Callback VNull ?cfg)]" by simp
  have 3: "truthy (VStr no_dotfile_msg)" by code_simp
  have 4: "status (initial example_world) = Running" by (simp add: initial_def)
  have 5: "argv_command (example_world\<lparr>argv_command := Some ''login''\<rparr>) = Some ''login''" by simp
  have 6: "logged (process_exit (report (VStr no_dotfile_msg)
      ((initial example_world)\<lparr>program := apply_options [] (program (initial example_world))\<rparr>)))
      = [Error no_dotfile_msg]"
    by code_simp
  have 7: "field (apply_options [] (program (initial example_world))) ''appVersion'' = VUndefined"
    by code_simp
  have 8: "invoked (initial example_world) = []" by (simp add: initial_def)
  have 9: "apply_options [(''requireCredentials'', VBool False), (''loadNpmConfig'', VBool False)]
      (flags (example_world\<lparr>argv_command := Some ''login''\<rparr>))
      = [(''appId'', VStr ''Y''), (''requireCredentials'', VBool False), (''loadNpmConfig'', VBool False)]"
    by code_simp
  note T = fail_fast_join [of ?w "[]" "initial example_world" "[(''config'', Callback VNull ?cfg)]"
      "''credentials''" "VStr no_dotfile_msg" VUndefined "[]" "''deploy''"
      "example_world\<lparr>argv_command := Some ''login''\<rparr>"]
  from T 1 2 3 4 have c: "commandAction ''deploy'' [] ?w (initial example_world)
      = process_exit (report (VStr no_dotfile_msg)
          ((initial example_world)\<lparr>program := apply_options [] (program (initial example_world))\<rparr>))"
    and i: "invoked (commandAction ''deploy'' [] ?w (initial example_world)) = invoked (initial example_world)"
    and p: "program (commandAction ''deploy'' [] ?w (initial example_world))
      = apply_options [] (program (initial example_world))"
    by blast+
  from T 5 have l: "invoked (main (example_world\<lparr>argv_command := Some ''login''\<rparr>))
      = [(''login'', apply_options [(''requireCredentials'', VBool False), (''loadNpmConfig'', VBool False)]
            (flags (example_world\<lparr>argv_command := Some ''login''\<rparr>)))]"
    by blast
  have a: "logged (commandAction ''deploy'' [] ?w (initial example_world)) = [Error no_dotfile_msg]"
    by (simp only: c 6)
  have b: "invoked (commandAction ''deploy'' [] ?w (initial example_world)) = []"
    by (simp only: i 8)
  have d: "field (program (commandAction ''deploy'' [] ?w (initial example_world))) ''appVersion''
      = VUndefined"
    by (simp only: p 7)
  have e: "invoked (main (example_world\<lparr>argv_command := Some ''login''\<rparr>))
       = [(''login'', [(''appId'', VStr ''Y''), (''requireCredentials'', VBool False),
            (''loadNpmConfig'', VBool False)])]"
    by (simp only: l 9)
  from 1 3 a b d e show ?thesis by blast
qed

section \<open>The project configuration resolver\<close>

text \<open>
  Claim C8 as stated fails. With \<^verbatim>\<open>"_aerobatic": "bound"\<close> in the manifest and
  \<^verbatim>\<open>--appId Y\<close> on the command line the resolver succeeds: the sub-section is truthy,
  the command line provides the \<^verbatim>\<open>appId\<close>, and the assignments of lines 207 and 211 to
  a string are dropped. The value handed back is the string itself, which has neither
  the version \<^verbatim>\<open>1.2.3\<close> of the manifest nor its scripts.
\<close>

theorem primitive_section_not_enriched:
  "loadAerobaticNpmConfig [(''appId'', VStr ''Y'')] ''/app/package.json''
      (Json (VObj [(''_aerobatic'', VStr ''bound''), (''version'', VStr ''1.2.3'')]))
     = Callback VNull (VStr ''bound'')
   \<and> get (VObj [(''_aerobatic'', VStr ''bound''), (''version'', VStr ''1.2.3'')]) ''version''
       = VStr ''1.2.3''
   \<and> get (VStr ''bound'') ''appVersion'' = VUndefined
   \<and> get (VStr ''bound'') ''npmScripts'' = VUndefined"
  by code_simp

text \<open>
  Claim C8, amended. For every manifest that the resolver resolves and whose
  \<^verbatim>\<open>_aerobatic\<close> sub-section is an object or an array, the value handed back has
  \<^verbatim>\<open>appVersion\<close> equal to the \<^verbatim>\<open>version\<close> of the manifest and \<^verbatim>\<open>npmScripts\<close> equal
  to its \<^verbatim>\<open>scripts\<close> (an empty object when the manifest has none), whatever the
  sub-section held under those names.
\<close>

theorem config_enriched_when_section_is_object:
  assumes "loadAerobaticNpmConfig prog path (Json json) = Callback err cfg"
    and "\<not> truthy err"
    and "isObject (get json ''_aerobatic'')"
  shows "get cfg ''appVersion'' = get json ''version''
       \<and> get cfg ''npmScripts''
           = (if truthy (get json ''scripts'') then get json ''scripts'' else VObj [])"
proof -
  from resolved_only_if [OF assms(1,2)] have
    "\<not> nullish json" "truthy (get json ''_aerobatic'')"
    "truthy (field prog ''appId'') \<or> truthy (get (get json ''_aerobatic'') ''appId'')"
    by blast+
  from resolved_config [OF this, of path] assms(1)
  have cfg: "cfg = put (put (if truthy (field prog ''appId'')
                  then put (get json ''_aerobatic'') ''appId'' (field prog ''appId'')
                  else get json ''_aerobatic'')
               ''appVersion'' (get json ''version''))
          ''npmScripts'' (if truthy (get json ''scripts'') then get json ''scripts'' else VObj [])"
    by simp
  show ?thesis
    unfolding cfg using assms(3) by (simp add: get_put isObject_put named_keys)
qed

text \<open>
  For C8: a sub-section that already holds \<^verbatim>\<open>appVersion 0.0.1\<close> resolves, and the
  value handed back carries the version \<^verbatim>\<open>2.0.0\<close> of the manifest.
\<close>

theorem config_enriched_when_section_is_object_witness:
  "loadAerobaticNpmConfig [] ''/app/package.json''
      (Json (VObj [(''_aerobatic'', VObj [(''appId'', VStr ''X''), (''appVersion'', VStr ''0.0.1'')]),
                   (''version'', VStr ''2.0.0''), (''scripts'', VObj [(''build'', VStr ''make'')])]))
     = Callback VNull (VObj [(''appId'', VStr ''X''), (''appVersion'', VStr ''2.0.0''),
                             (''npmScripts'', VObj [(''build'', VStr ''make'')])])
   \<and> \<not> truthy VNull
   \<and> get (VObj [(''appId'', VStr ''X''), (''appVersion'', VStr ''2.0.0''),
                  (''npmScripts'', VObj [(''build'', VStr ''make'')])]) ''appVersion'' = VStr ''2.0.0''"
proof -
  let ?json = "VObj [(''_aerobatic'', VObj [(''appId'', VStr ''X''), (''appVersion'', VStr ''0.0.1'')]),
                   (''version'', VStr ''2.0.0''), (''scripts'', VObj [(''build'', VStr ''make'')])]"
  let ?cfg = "VObj [(''appId'', VStr ''X''), (''appVersion'', VStr ''2.0.0''),
                             (''npmScripts'', VObj [(''build'', VStr ''make'')])]"
  have 1: "loadAerobaticNpmConfig [] ''/app/package.json'' (Json ?json) = Callback VNull ?cfg"
    by code_simp
  have 2: "\<not> truthy VNull" by simp
  have 3: "isObject (get ?json ''_aerobatic'')" by code_simp
  have 4: "get ?json ''version'' = VStr ''2.0.0''" by code_simp
  from config_enriched_when_section_is_object [OF 1 2 3] 1 2 4 show ?thesis by simp
qed

text \<open>
  Claim C3. When the \<^verbatim>\<open>_aerobatic\<close> sub-section of the manifest holds an \<^verbatim>\<open>appId\<close>
  and \<^verbatim>\<open>program.appId\<close> is set, the resolver succeeds and the \<^verbatim>\<open>appId\<close> it hands back
  is the command-line value. The resolver fails with the missing-appId message if and only
  if the manifest parses to a value with a truthy sub-section and neither
  \<^verbatim>\<open>program.appId\<close> nor the sub-section's \<^verbatim>\<open>appId\<close> is truthy. For a sub-section that
  is an object or an array the resolver, which tests both sources in line 203 and lays the
  command-line value over the sub-section in line 207, computes what the resolver that
  overlays first and then tests the sub-section alone computes.
\<close>

theorem explicit_appId_wins:
  "(''appId'' \<in> set (keys (get json ''_aerobatic'')) \<and> truthy (field prog ''appId'')
      \<longrightarrow> (\<exists>cfg. loadAerobaticNpmConfig prog path (Json json) = Callback VNull cfg
                \<and> get cfg ''appId'' = field prog ''appId''))
   \<and> ((loadAerobaticNpmConfig prog path f = Callback (VStr missing_appId_msg) VUndefined)
        = (\<exists>j. f = Json j \<and> \<not> nullish j \<and> truthy (get j ''_aerobatic'')
              \<and> \<not> truthy (field prog ''appId'')
              \<and> \<not> truthy (get (get j ''_aerobatic'') ''appId'')))
   \<and> (isObject (get json ''_aerobatic'')
        \<longrightarrow> loadAerobaticNpmConfig prog path (Json json)
            = loadAerobaticNpmConfig_overlay_first prog path (Json json))"
proof (intro conjI impI)
  assume a: "''appId'' \<in> set (keys (get json ''_aerobatic'')) \<and> truthy (field prog ''appId'')"
  then have o: "isObject (get json ''_aerobatic'')" by (blast intro: keys_isObject)
  then have t: "truthy (get json ''_aerobatic'')" by (rule isObject_truthy)
  have n: "\<not> nullish json"
  proof
    assume "nullish json"
    then have "get json ''_aerobatic'' = VUndefined" by (rule get_nullish)
    with t show False by simp
  qed
  from a have "truthy (field prog ''appId'') \<or> truthy (get (get json ''_aerobatic'') ''appId'')"
    by simp
  from resolved_config [OF n t this, of path] a o
  show "\<exists>cfg. loadAerobaticNpmConfig prog path (Json json) = Callback VNull cfg
                \<and> get cfg ''appId'' = field prog ''appId''"
    by (simp add: get_put isObject_put named_keys)
next
  show "(loadAerobaticNpmConfig prog path f = Callback (VStr missing_appId_msg) VUndefined)
        = (\<exists>j. f = Json j \<and> \<not> nullish j \<and> truthy (get j ''_aerobatic'')
              \<and> \<not> truthy (field prog ''appId'')
              \<and> \<not> truthy (get (get j ''_aerobatic'') ''appId''))"
    by (rule missing_appId_iff)
next
  assume "isObject (get json ''_aerobatic'')"
  then show "loadAerobaticNpmConfig prog path (Json json)
            = loadAerobaticNpmConfig_overlay_first prog path (Json json)"
    by (rule overlay_first_same)
qed

text \<open>
  For C3: the manifest of the sample invocation binds \<^verbatim>\<open>X\<close> and the command line
  gives \<^verbatim>\<open>Y\<close>; the resolved \<^verbatim>\<open>appId\<close> is \<^verbatim>\<open>Y\<close>. With an empty sub-section and no
  flag the resolver fails with the missing-appId message.
\<close>

theorem explicit_appId_wins_witness:
  "''appId'' \<in> set (keys (get (VObj [(''_aerobatic'', VObj [(''appId'', VStr ''X'')]),
        (''version'', VStr ''1.0.0'')]) ''_aerobatic''))
   \<and> truthy (field [(''appId'', VStr ''Y'')] ''appId'')
   \<and> isObject (get (VObj [(''_aerobatic'', VObj [(''appId'', VStr ''X'')]),
        (''version'', VStr ''1.0.0'')]) ''_aerobatic'')
   \<and> (\<exists>cfg. loadAerobaticNpmConfig [(''appId'', VStr ''Y'')] ''/app/package.json''
          (Json (VObj [(''_aerobatic'', VObj [(''appId'', VStr ''X'')]), (''version'', VStr ''1.0.0'')]))
          = Callback VNull cfg \<and> get cfg ''appId'' = VStr ''Y'')
   \<and> loadAerobaticNpmConfig [] ''/app/package.json'' (Json (VObj [(''_aerobatic'', VObj [])]))
       = Callback (VStr missing_appId_msg) VUndefined
   \<and> loadAerobaticNpmConfig_overlay_first [(''appId'', VStr ''Y'')] ''/app/package.json''
          (Json (VObj [(''_aerobatic'', VObj [(''appId'', VStr ''X'')]), (''version'', VStr ''1.0.0'')]))
       = Callback VNull (VObj [(''appId'', VStr ''Y''), (''appVersion'', VStr ''1.0.0''),
           (''npmScripts'', VObj [])])"
proof -
  let ?json = "VObj [(''_aerobatic'', VObj [(''appId'', VStr ''X'')]), (''version'', VStr ''1.0.0'')]"
  let ?prog = "[(''appId'', VStr ''Y'')]"
  have 1: "''appId'' \<in> set (keys (get ?json ''_aerobatic''))" by code_simp
  have 2: "truthy (field ?prog ''appId'')" by code_simp
  have 3: "isObject (get ?json ''_aerobatic'')" by code_simp
  have 4: "field ?prog ''appId'' = VStr ''Y''" by code_simp
  have 5: "\<exists>j. Json (VObj [(''_aerobatic'', VObj [])]) = Json j \<and> \<not> nullish j
      \<and> truthy (get j ''_aerobatic'') \<and> \<not> truthy (field [] ''appId'')
      \<and> \<not> truthy (get (get j ''_aerobatic'') ''appId'')"
    by (rule exI [of _ "VObj [(''_aerobatic'', VObj [])]"]) code_simp
  have 6: "loadAerobaticNpmConfig ?prog ''/app/package.json'' (Json ?json)
       = Callback VNull (VObj [(''appId'', VStr ''Y''), (''appVersion'', VStr ''1.0.0''),
           (''npmScripts'', VObj [])])"
    by code_simp
  note T = explicit_appId_wins [of ?json ?prog "''/app/package.json''"]
  note U = explicit_appId_wins [of ?json "[]" "''/app/package.json''" "Json (VObj [(''_aerobatic'', VObj [])])"]
  from T 1 2 have a: "\<exists>cfg. loadAerobaticNpmConfig ?prog ''/app/package.json'' (Json ?json) = Callback VNull cfg
                \<and> get cfg ''appId'' = field ?prog ''appId''"
    by blast
  from U 5 have b: "loadAerobaticNpmConfig [] ''/app/package.json'' (Json (VObj [(''_aerobatic'', VObj [])]))
       = Callback (VStr missing_appId_msg) VUndefined"
    by blast
  from T 3 have c: "loadAerobaticNpmConfig ?prog ''/app/package.json'' (Json ?json)
            = loadAerobaticNpmConfig_overlay_first ?prog ''/app/package.json'' (Json ?json)"
    by blast
  from a have a': "\<exists>cfg. loadAerobaticNpmConfig ?prog ''/app/package.json'' (Json ?json) = Callback VNull cfg
                \<and> get cfg ''appId'' = VStr ''Y''"
    by (simp only: 4)
  from c 6 have c': "loadAerobaticNpmConfig_overlay_first ?prog ''/app/package.json'' (Json ?json)
       = Callback VNull (VObj [(''appId'', VStr ''Y''), (''appVersion'', VStr ''1.0.0''),
           (''npmScripts'', VObj [])])"
    by simp
  from 1 2 3 a' b c' show ?thesis by blast
qed

section \<open>The merge into the Context\<close>

text \<open>
  Claim C1 as stated fails. In the sample invocation both tasks succeed and the command
  receives a Context in which the fields \<^verbatim>\<open>credentials\<close> and \<^verbatim>\<open>config\<close> are
  undefined: the loop of lines 116-118 ignores the key and spreads the fields of each
  value over \<^verbatim>\<open>program\<close>, so that \<^verbatim>\<open>userId\<close> is a top-level field. And when the
  credentials file also holds an \<^verbatim>\<open>appId\<close>, the \<^verbatim>\<open>appId\<close> of the Context is that of
  the task that finished last.
\<close>

theorem merge_is_not_keyed_assignment:
  "invoked (main example_world) = [(''deploy'', example_context)]
   \<and> loadCredentials (dotfile example_world)
       = Callback VNull (VObj [(''userId'', VStr ''u1''), (''secretKey'', VStr ''s1'')])
   \<and> field example_context ''credentials'' = VUndefined
   \<and> field example_context ''config'' = VUndefined
   \<and> field example_context ''userId'' = VStr ''u1''
   \<and> field (program (main (example_world\<lparr>dotfile := Json (VObj [(''userId'', VStr ''u1''),
        (''secretKey'', VStr ''s1''), (''appId'', VStr ''Z'')])\<rparr>))) ''appId'' = VStr ''Y''
   \<and> field (program (main (example_world\<lparr>dotfile := Json (VObj [(''userId'', VStr ''u1''),
        (''secretKey'', VStr ''s1''), (''appId'', VStr ''Z'')]), config_first := True\<rparr>))) ''appId''
       = VStr ''Z''"
  by code_simp

text \<open>
  Claim C1, amended. In every run in which all declared tasks succeed, the merge is a
  flattening: each field of each resolved value becomes the field of the same name of the
  Context, a name held by several results taking the value of the task that finished
  last, and the other fields of \<^verbatim>\<open>program\<close> are kept; the command is dispatched with
  that Context; and when the two resolved values have no field name in common the Context
  does not depend on which task finished first.
\<close>

theorem merge_flattens_results:
  assumes "list_all (\<lambda>(k, out). succeeded out)
             (task_outcomes w (apply_options options (program st)))"
  shows "field (program (commandAction name options w st)) f
           = flattened (rev (resolved w (apply_options options (program st))))
               (apply_options options (program st)) f
       \<and> invoked (commandAction name options w st)
           = invoked st @ [(name, program (commandAction name options w st))]
       \<and> (set (keys (value_of (run_task w (apply_options options (program st)) ''credentials'')))
            \<inter> set (keys (value_of (run_task w (apply_options options (program st)) ''config''))) = {}
           \<longrightarrow> field (program (commandAction name options (w\<lparr>config_first := b\<rparr>) st)) f
               = field (program (commandAction name options w st)) f)"
proof -
  let ?p = "apply_options options (program st)"
  have a: "field (program (commandAction name options w st)) f = flattened (rev (resolved w ?p)) ?p f"
    by (simp add: commandAction_all_succeed(1) [OF assms] field_merge_results)
  have b: "field (program (commandAction name options (w\<lparr>config_first := b\<rparr>) st)) f
      = flattened (rev (resolved (w\<lparr>config_first := b\<rparr>) ?p)) ?p f"
    using assms
    by (simp add: commandAction_all_succeed(1) all_succeed_order field_merge_results)
  from a b flattened_order [of w ?p b f] commandAction_all_succeed(2) [OF assms, of name]
  show ?thesis by simp
qed

text \<open>
  For C1 amended: in the sample invocation both tasks succeed; \<^verbatim>\<open>userId\<close> is a field
  of the Context, \<^verbatim>\<open>credentials\<close> is not, and the resolved values share no field name,
  so that the other order of arrival gives the same field.
\<close>

theorem merge_flattens_results_witness:
  "list_all (\<lambda>(k, out). succeeded out)
      (task_outcomes example_world (apply_options [] (program (initial example_world))))
   \<and> field (program (commandAction ''deploy'' [] example_world (initial example_world))) ''userId''
       = VStr ''u1''
   \<and> field (program (commandAction ''deploy'' [] example_world (initial example_world))) ''credentials''
       = VUndefined
   \<and> field (program (commandAction ''deploy'' [] (example_world\<lparr>config_first := True\<rparr>)
        (initial example_world))) ''userId'' = VStr ''u1''"
proof -
  let ?p = "apply_options [] (program (initial example_world))"
  have 1: "list_all (\<lambda>(k, out). succeeded out) (task_outcomes example_world ?p)" by code_simp
  have 2: "set (keys (value_of (run_task example_world ?p ''credentials'')))
            \<inter> set (keys (value_of (run_task example_world ?p ''config''))) = {}"
    by code_simp
  have 3: "flattened (rev (resolved example_world ?p)) ?p ''userId'' = VStr ''u1''" by code_simp
  have 4: "flattened (rev (resolved example_world ?p)) ?p ''credentials'' = VUndefined" by code_simp
  note T = merge_flattens_results [OF 1, of "''deploy''" _ True]
  from T [of "''userId''"] 3
  have a: "field (program (commandAction ''deploy'' [] example_world (initial example_world))) ''userId''
       = VStr ''u1''"
    by simp
  from T [of "''credentials''"] 4
  have b: "field (program (commandAction ''deploy'' [] example_world (initial example_world)))
       ''credentials'' = VUndefined"
    by simp
  from T [of "''userId''"] 2 a
  have c: "field (program (commandAction ''deploy'' [] (example_world\<lparr>config_first := True\<rparr>)
        (initial example_world))) ''userId'' = VStr ''u1''"
    by simp
  from 1 a b c show ?thesis by blast
qed

end
